theory Spec2Isabelle
  imports Main
begin

section \<open>Data model\<close>

text \<open>
  Identifiers are MongoDB \<open>Types.ObjectId\<close> values. The code only compares them for
  equality (Mongoose arrays compare ObjectIds by value in \<open>includes\<close> and
  \<open>indexOf\<close>), so a natural number stands for one.
\<close>

type_synonym ObjectId = nat

text \<open>
  Modelled from the spec: the Team schema (\<open>teams/schemas/team.schema\<close>) is not among the
  sources. A team has an identifier (\<open>_id\<close>), the owning room, a name, the ordered list
  of player identifiers, and the current describer and team leader, each a player
  identifier or unset.
\<close>

record Team =
  team_id :: ObjectId
  roomId :: ObjectId
  team_name :: string
  players :: "ObjectId list"
  describer :: "ObjectId option"
  teamLeader :: "ObjectId option"

text \<open>The fields of \<open>CreateTeamDto\<close> that the sources write: \<open>name\<close> and \<open>players\<close>.\<close>

record CreateTeamDto =
  dto_name :: string
  dto_players :: "ObjectId list"

text \<open>
  The exceptions of \<open>TeamsService\<close>. The message is either one of the fixed texts or the
  template \<open>Team ${teamId} in room ${roomId} not found\<close>, kept with its two identifiers.
\<close>

datatype message = Text string | TeamInRoomNotFound ObjectId ObjectId

datatype exception = NotFoundException message | BadRequestException message

type_synonym 'a result = "exception + 'a"

text \<open>
  The team collection behind \<open>teamModel\<close>: the documents in insertion order. A query
  for one document answers the first that matches.
\<close>

type_synonym collection = "Team list"

section \<open>JavaScript numbers and array reads\<close>

text \<open>
  Index arithmetic in \<open>defineDescriberAndLeader\<close> is done on JavaScript numbers. The
  values that occur are integers and \<open>NaN\<close> (the remainder by a zero length), so a
  number is an optional integer, \<open>None\<close> being \<open>NaN\<close>.
\<close>

type_synonym number = "int option"

definition js_add :: "number \<Rightarrow> number \<Rightarrow> number" where
  "js_add a b = (case a of None \<Rightarrow> None
                 | Some x \<Rightarrow> (case b of None \<Rightarrow> None | Some y \<Rightarrow> Some (x + y)))"

text \<open>The operator \<open>%\<close>: the remainder takes the sign of the dividend; by zero it is \<open>NaN\<close>.\<close>

definition js_rem :: "number \<Rightarrow> number \<Rightarrow> number" where
  "js_rem a b = (case a of None \<Rightarrow> None
                 | Some x \<Rightarrow> (case b of None \<Rightarrow> None
                     | Some y \<Rightarrow> if y = 0 then None else Some (sgn x * (\<bar>x\<bar> mod \<bar>y\<bar>))))"

text \<open>\<open>xs[i]\<close>: \<open>undefined\<close> (here \<open>None\<close>) for \<open>NaN\<close> and for an index out of range.\<close>

definition at_index :: "'a list \<Rightarrow> number \<Rightarrow> 'a option" where
  "at_index xs i = (case i of None \<Rightarrow> None
                    | Some k \<Rightarrow> if 0 \<le> k \<and> k < int (length xs) then Some (xs ! nat k) else None)"

text \<open>\<open>xs.indexOf(x)\<close>: the first position of \<open>x\<close>, or \<open>-1\<close>.\<close>

fun indexOf :: "ObjectId list \<Rightarrow> ObjectId \<Rightarrow> int" where
  "indexOf [] x = - 1"
| "indexOf (y # ys) x =
     (if y = x then 0 else (let i = indexOf ys x in if i < 0 then - 1 else i + 1))"

text \<open>\<open>xs.includes(x)\<close>.\<close>

definition includes_id :: "ObjectId list \<Rightarrow> ObjectId \<Rightarrow> bool" where
  "includes_id xs x = (indexOf xs x \<noteq> - 1)"

section \<open>Queries on the team collection\<close>

text \<open>\<open>findOne(filter)\<close>: the first matching document, or \<open>null\<close>.\<close>

fun findOne_query :: "(Team \<Rightarrow> bool) \<Rightarrow> collection \<Rightarrow> Team option" where
  "findOne_query P [] = None"
| "findOne_query P (t # ts) = (if P t then Some t else findOne_query P ts)"

text \<open>
  \<open>findOneAndUpdate(filter, update, {new: true})\<close>: updates the first matching document
  and answers it as updated, or answers \<open>null\<close> and changes nothing.
\<close>

fun findOneAndUpdate :: "(Team \<Rightarrow> bool) \<Rightarrow> (Team \<Rightarrow> Team) \<Rightarrow> collection \<Rightarrow> Team option \<times> collection" where
  "findOneAndUpdate P f [] = (None, [])"
| "findOneAndUpdate P f (t # ts) =
     (if P t then (Some (f t), f t # ts)
      else (case findOneAndUpdate P f ts of (r, ts') \<Rightarrow> (r, t # ts')))"

text \<open>\<open>deleteOne(filter)\<close>: removes the first matching document; answers \<open>deletedCount\<close>.\<close>

fun deleteOne :: "(Team \<Rightarrow> bool) \<Rightarrow> collection \<Rightarrow> nat \<times> collection" where
  "deleteOne P [] = (0, [])"
| "deleteOne P (t # ts) =
     (if P t then (1, ts) else (case deleteOne P ts of (n, ts') \<Rightarrow> (n, t # ts')))"

text \<open>The filters \<open>{_id: teamId}\<close> and \<open>{_id: teamId, roomId}\<close>.\<close>

definition by_id :: "ObjectId \<Rightarrow> Team \<Rightarrow> bool" where
  "by_id tid t = (team_id t = tid)"

definition by_id_room :: "ObjectId \<Rightarrow> ObjectId \<Rightarrow> Team \<Rightarrow> bool" where
  "by_id_room tid rid t = (team_id t = tid \<and> roomId t = rid)"

text \<open>
  The update documents the service sends. A field whose value is \<open>undefined\<close> (here
  \<open>None\<close>) is taken to be left out of the update, so that the stored field stays as it
  is; the rotation sends such a value only for a team with no players.
\<close>

definition set_players :: "ObjectId list \<Rightarrow> Team \<Rightarrow> Team" where
  "set_players ps t = t\<lparr>players := ps\<rparr>"

definition set_describer :: "ObjectId option \<Rightarrow> Team \<Rightarrow> Team" where
  "set_describer u t = (case u of None \<Rightarrow> t | Some x \<Rightarrow> t\<lparr>describer := Some x\<rparr>)"

definition set_teamLeader :: "ObjectId option \<Rightarrow> Team \<Rightarrow> Team" where
  "set_teamLeader u t = (case u of None \<Rightarrow> t | Some x \<Rightarrow> t\<lparr>teamLeader := Some x\<rparr>)"

text \<open>\<open>{$pull: {players: userId}}\<close>: removes every occurrence of the value.\<close>

definition pull_player :: "ObjectId \<Rightarrow> Team \<Rightarrow> Team" where
  "pull_player u t = t\<lparr>players := filter (\<lambda>p. p \<noteq> u) (players t)\<rparr>"

section \<open>TeamsService\<close>

definition MAX_USERS_IN_TEAM :: nat where
  "MAX_USERS_IN_TEAM = 3"

text \<open>
  \<open>create\<close>: the new document takes the fields of the DTO and the room; its \<open>_id\<close> is
  generated by the driver and is a parameter here. Describer and leader start unset.
\<close>

definition create :: "ObjectId \<Rightarrow> ObjectId \<Rightarrow> CreateTeamDto \<Rightarrow> collection \<Rightarrow> Team result \<times> collection" where
  "create new_id rid dto store =
     (let createdTeam = \<lparr>team_id = new_id, roomId = rid, team_name = dto_name dto,
                          players = dto_players dto, describer = None, teamLeader = None\<rparr>
      in (Inr createdTeam, store @ [createdTeam]))"

definition findTeamById :: "ObjectId \<Rightarrow> collection \<Rightarrow> Team option result" where
  "findTeamById tid store = Inr (findOne_query (by_id tid) store)"

text \<open>\<open>update\<close> with the only update document the sources build, \<open>{players: ...}\<close>.\<close>

definition update :: "ObjectId \<Rightarrow> ObjectId list \<Rightarrow> collection \<Rightarrow> Team option result \<times> collection" where
  "update tid ps store =
     (case findOneAndUpdate (by_id tid) (set_players ps) store of (r, store') \<Rightarrow> (Inr r, store'))"

text \<open>The confirmation \<open>addPlayerToTeam\<close> answers: message, room and team identifiers.\<close>

record Confirmation =
  conf_message :: string
  conf_roomId :: ObjectId
  conf_teamId :: ObjectId

definition addPlayerToTeam :: "ObjectId \<Rightarrow> ObjectId \<Rightarrow> collection \<Rightarrow> Confirmation result \<times> collection" where
  "addPlayerToTeam uid tid store =
     (case findTeamById tid store of
        Inl e \<Rightarrow> (Inl e, store)
      | Inr None \<Rightarrow> (Inl (NotFoundException (Text ''Team not found.'')), store)
      | Inr (Some team) \<Rightarrow>
          if length (players team) \<ge> MAX_USERS_IN_TEAM
          then (Inl (BadRequestException (Text ''Team is already full.'')), store)
          else if \<not> includes_id (players team) uid
          then (case update tid (players team @ [uid]) store of
                  (Inl e, store') \<Rightarrow> (Inl e, store')
                | (Inr _, store') \<Rightarrow>
                    (Inr \<lparr>conf_message = ''Player added to the team successfully.'',
                          conf_roomId = roomId team, conf_teamId = team_id team\<rparr>, store'))
          else (Inl (BadRequestException (Text ''User is already in the team.'')), store))"

definition findAll :: "ObjectId \<Rightarrow> collection \<Rightarrow> Team list result" where
  "findAll rid store = Inr (filter (\<lambda>t. roomId t = rid) store)"

definition findOne :: "ObjectId \<Rightarrow> ObjectId \<Rightarrow> collection \<Rightarrow> Team result" where
  "findOne rid tid store =
     (case findOne_query (by_id_room tid rid) store of
        None \<Rightarrow> Inl (NotFoundException (TeamInRoomNotFound tid rid))
      | Some team \<Rightarrow> Inr team)"

definition remove_team :: "ObjectId \<Rightarrow> ObjectId \<Rightarrow> collection \<Rightarrow> unit result \<times> collection" where
  "remove_team rid tid store =
     (case deleteOne (by_id_room tid rid) store of
        (deletedCount, store') \<Rightarrow>
          if deletedCount = 0 then (Inl (NotFoundException (TeamInRoomNotFound tid rid)), store')
          else (Inr (), store'))"

definition findAllTeamPlayers :: "ObjectId \<Rightarrow> ObjectId \<Rightarrow> collection \<Rightarrow> ObjectId list result" where
  "findAllTeamPlayers rid tid store =
     (case findOne rid tid store of Inl e \<Rightarrow> Inl e | Inr team \<Rightarrow> Inr (players team))"

definition removePlayer :: "ObjectId \<Rightarrow> ObjectId \<Rightarrow> ObjectId \<Rightarrow> collection \<Rightarrow> Team result \<times> collection" where
  "removePlayer rid tid uid store =
     (case findOneAndUpdate (by_id_room tid rid) (pull_player uid) store of
        (None, store') \<Rightarrow> (Inl (NotFoundException (TeamInRoomNotFound tid rid)), store')
      | (Some team, store') \<Rightarrow> (Inr team, store'))"

definition setDescriber :: "ObjectId \<Rightarrow> ObjectId \<Rightarrow> ObjectId option \<Rightarrow> collection \<Rightarrow> Team result \<times> collection" where
  "setDescriber rid tid userId store =
     (case findOneAndUpdate (by_id_room tid rid) (set_describer userId) store of
        (None, store') \<Rightarrow> (Inl (NotFoundException (TeamInRoomNotFound tid rid)), store')
      | (Some team, store') \<Rightarrow> (Inr team, store'))"

definition setTeamLeader :: "ObjectId \<Rightarrow> ObjectId \<Rightarrow> ObjectId option \<Rightarrow> collection \<Rightarrow> Team result \<times> collection" where
  "setTeamLeader rid tid userId store =
     (case findOneAndUpdate (by_id_room tid rid) (set_teamLeader userId) store of
        (None, store') \<Rightarrow> (Inl (NotFoundException (TeamInRoomNotFound tid rid)), store')
      | (Some team, store') \<Rightarrow> (Inr team, store'))"

text \<open>The indices the rotation computes from the player list and the current describer.\<close>

definition currentDescriberIndex :: "ObjectId list \<Rightarrow> ObjectId option \<Rightarrow> number" where
  "currentDescriberIndex ps d = (case d of None \<Rightarrow> Some (- 1) | Some x \<Rightarrow> Some (indexOf ps x))"

definition nextDescriberIndex :: "ObjectId list \<Rightarrow> ObjectId option \<Rightarrow> number" where
  "nextDescriberIndex ps d =
     js_rem (js_add (currentDescriberIndex ps d) (Some 1)) (Some (int (length ps)))"

definition nextLeaderIndex :: "ObjectId list \<Rightarrow> ObjectId option \<Rightarrow> number" where
  "nextLeaderIndex ps d =
     js_rem (js_add (nextDescriberIndex ps d) (Some 1)) (Some (int (length ps)))"

definition defineDescriberAndLeader :: "ObjectId \<Rightarrow> ObjectId \<Rightarrow> collection \<Rightarrow> Team result \<times> collection" where
  "defineDescriberAndLeader rid tid store =
     (case findOne_query (by_id_room tid rid) store of
        None \<Rightarrow> (Inl (NotFoundException (TeamInRoomNotFound tid rid)), store)
      | Some team \<Rightarrow>
          (let nextDescriber = at_index (players team) (nextDescriberIndex (players team) (describer team));
               nextLeader = at_index (players team) (nextLeaderIndex (players team) (describer team))
           in (case setDescriber rid tid nextDescriber store of
                 (Inl e, store') \<Rightarrow> (Inl e, store')
               | (Inr _, store') \<Rightarrow> setTeamLeader rid tid nextLeader store')))"

text \<open>
  Repeated rotation: the answer of call number \<open>k + 1\<close> on the same team, each call
  working on the collection the previous one left.
\<close>

primrec rotations :: "nat \<Rightarrow> ObjectId \<Rightarrow> ObjectId \<Rightarrow> collection \<Rightarrow> Team result \<times> collection" where
  "rotations 0 rid tid store = defineDescriberAndLeader rid tid store"
| "rotations (Suc k) rid tid store =
     rotations k rid tid (snd (defineDescriberAndLeader rid tid store))"

text \<open>
  The role invariant of the data model: when describer and team leader are both set, they
  are different players and both are in the team's player list.
\<close>

definition roles_ok :: "Team \<Rightarrow> bool" where
  "roles_ok t =
     (case describer t of
        None \<Rightarrow> True
      | Some d \<Rightarrow> (case teamLeader t of
                     None \<Rightarrow> True
                   | Some l \<Rightarrow> d \<noteq> l \<and> d \<in> set (players t) \<and> l \<in> set (players t)))"

section \<open>Rooms\<close>

text \<open>
  Modelled from the spec: the Room schema and \<open>RoomsService\<close> (\<open>rooms/rooms.service\<close>) are
  not among the sources; only their caller, \<open>InitializationService\<close>, is. A room has an
  identifier, a name, the ordered list of its team identifiers and the turn duration in
  seconds.
\<close>

record Room =
  room_id :: ObjectId
  room_name :: string
  teams :: "ObjectId list"
  turnTime :: nat

record CreateRoomDto =
  rdto_name :: string
  rdto_teams :: "ObjectId list"
  rdto_turnTime :: nat

text \<open>
  The database: the room collection, the team collection, and the source of new
  ObjectIds, a counter that stands for the driver's generator.
\<close>

record db =
  roomModel :: "Room list"
  teamModel :: collection
  nextObjectId :: ObjectId

text \<open>
  Modelled from the spec: \<open>RoomsService.deleteAllRooms\<close>, "unconditionally removes every
  room".
\<close>

definition deleteAllRooms :: "db \<Rightarrow> db" where
  "deleteAllRooms d = d\<lparr>roomModel := []\<rparr>"

text \<open>Modelled from the spec: \<open>RoomsService.findAll\<close>, "returns all rooms".\<close>

definition rooms_findAll :: "db \<Rightarrow> Room list" where
  "rooms_findAll d = roomModel d"

text \<open>
  Modelled from the spec: \<open>RoomsService.create\<close>, "inserts a room with the given name,
  turn duration, and empty/seed team-id list". The new room takes the next ObjectId.
\<close>

definition rooms_create :: "CreateRoomDto \<Rightarrow> db \<Rightarrow> Room \<times> db" where
  "rooms_create dto d =
     (let createdRoom = \<lparr>room_id = nextObjectId d, room_name = rdto_name dto,
                          teams = rdto_teams dto, turnTime = rdto_turnTime dto\<rparr>
      in (createdRoom, d\<lparr>roomModel := roomModel d @ [createdRoom],
                          nextObjectId := Suc (nextObjectId d)\<rparr>))"

text \<open>
  Modelled from the spec: \<open>RoomsService.updateTeam\<close>, "replaces the room's team-id list".
\<close>

definition updateTeam :: "ObjectId \<Rightarrow> ObjectId list \<Rightarrow> db \<Rightarrow> db" where
  "updateTeam rid teamIds d =
     d\<lparr>roomModel := map (\<lambda>r. if room_id r = rid then r\<lparr>teams := teamIds\<rparr> else r) (roomModel d)\<rparr>"

section \<open>InitializationService\<close>

text \<open>\<open>xs.some(p)\<close>.\<close>

fun array_some :: "('a \<Rightarrow> bool) \<Rightarrow> 'a list \<Rightarrow> bool" where
  "array_some p [] = False"
| "array_some p (x # xs) = (if p x then True else array_some p xs)"

definition initialRooms :: "CreateRoomDto list" where
  "initialRooms =
     [\<lparr>rdto_name = ''Room1'', rdto_teams = [], rdto_turnTime = 60\<rparr>,
      \<lparr>rdto_name = ''Room2'', rdto_teams = [], rdto_turnTime = 60\<rparr>]"

text \<open>
  The default teams of \<open>addTeamsToRoom\<close>. Each literal also carries \<open>roomId\<close>, the value
  that \<open>create\<close> writes anyway.
\<close>

definition defaultTeams :: "CreateTeamDto list" where
  "defaultTeams =
     [\<lparr>dto_name = ''Team1'', dto_players = []\<rparr>,
      \<lparr>dto_name = ''Team2'', dto_players = []\<rparr>,
      \<lparr>dto_name = ''Team3'', dto_players = []\<rparr>]"

text \<open>The loop of \<open>addTeamsToRoom\<close>: creates each team and collects the identifiers.\<close>

fun addTeams_loop :: "ObjectId \<Rightarrow> CreateTeamDto list \<Rightarrow> ObjectId list \<Rightarrow> db \<Rightarrow> ObjectId list result \<times> db" where
  "addTeams_loop rid [] teamIds d = (Inr teamIds, d)"
| "addTeams_loop rid (team # rest) teamIds d =
     (case create (nextObjectId d) rid team (teamModel d) of
        (Inl e, store') \<Rightarrow>
          (Inl e, d\<lparr>teamModel := store', nextObjectId := Suc (nextObjectId d)\<rparr>)
      | (Inr createdTeam, store') \<Rightarrow>
          addTeams_loop rid rest (teamIds @ [team_id createdTeam])
            (d\<lparr>teamModel := store', nextObjectId := Suc (nextObjectId d)\<rparr>))"

definition addTeamsToRoom :: "ObjectId \<Rightarrow> db \<Rightarrow> unit result \<times> db" where
  "addTeamsToRoom rid d =
     (case addTeams_loop rid defaultTeams [] d of
        (Inl e, d') \<Rightarrow> (Inl e, d')
      | (Inr teamIds, d') \<Rightarrow> (Inr (), updateTeam rid teamIds d'))"

text \<open>The existence check of \<open>createDefaultRooms\<close>: is there a room of that name?\<close>

definition roomExist :: "CreateRoomDto \<Rightarrow> db \<Rightarrow> bool" where
  "roomExist room d =
     (let existingRoom = rooms_findAll d
      in array_some (\<lambda>existing. room_name existing = rdto_name room) existingRoom)"

fun createDefaultRooms_loop :: "CreateRoomDto list \<Rightarrow> db \<Rightarrow> unit result \<times> db" where
  "createDefaultRooms_loop [] d = (Inr (), d)"
| "createDefaultRooms_loop (room # rest) d =
     (if \<not> roomExist room d
      then (case rooms_create room d of
              (createdRoom, d1) \<Rightarrow>
                (case addTeamsToRoom (room_id createdRoom) d1 of
                   (Inl e, d2) \<Rightarrow> (Inl e, d2)
                 | (Inr _, d2) \<Rightarrow> createDefaultRooms_loop rest d2))
      else createDefaultRooms_loop rest d)"

definition createDefaultRooms :: "db \<Rightarrow> unit result \<times> db" where
  "createDefaultRooms d = createDefaultRooms_loop initialRooms (deleteAllRooms d)"

definition onModuleInit :: "db \<Rightarrow> unit result \<times> db" where
  "onModuleInit d = createDefaultRooms d"

text \<open>
  The bootstrap as the specification words it for comparison: delete every room, then
  create each default room and its teams, with no existence check.
\<close>

fun createRooms_unchecked_loop :: "CreateRoomDto list \<Rightarrow> db \<Rightarrow> unit result \<times> db" where
  "createRooms_unchecked_loop [] d = (Inr (), d)"
| "createRooms_unchecked_loop (room # rest) d =
     (case rooms_create room d of
        (createdRoom, d1) \<Rightarrow>
          (case addTeamsToRoom (room_id createdRoom) d1 of
             (Inl e, d2) \<Rightarrow> (Inl e, d2)
           | (Inr _, d2) \<Rightarrow> createRooms_unchecked_loop rest d2))"

definition createDefaultRooms_unchecked :: "db \<Rightarrow> unit result \<times> db" where
  "createDefaultRooms_unchecked d = createRooms_unchecked_loop initialRooms (deleteAllRooms d)"

section \<open>Example data\<close>

text \<open>
  The teams of the examples. The players A, B and C are the identifiers 10, 20 and 30;
  \<open>team_AAB\<close> lists one identifier twice, as \<open>create\<close> allows.
\<close>

abbreviation (input) team_ABC :: Team where
  "team_ABC \<equiv> \<lparr>team_id = 5, roomId = 9, team_name = ''Team1'', players = [10, 20, 30],
                 describer = None, teamLeader = None\<rparr>"

abbreviation (input) team_A :: Team where
  "team_A \<equiv> \<lparr>team_id = 6, roomId = 9, team_name = ''Team2'', players = [10],
               describer = None, teamLeader = None\<rparr>"

abbreviation (input) team_AAB :: Team where
  "team_AAB \<equiv> \<lparr>team_id = 7, roomId = 9, team_name = ''Team3'', players = [1, 1, 2],
                 describer = None, teamLeader = None\<rparr>"

abbreviation (input) team_AB :: Team where
  "team_AB \<equiv> \<lparr>team_id = 8, roomId = 9, team_name = ''Team1'', players = [10, 20],
                describer = None, teamLeader = None\<rparr>"

abbreviation (input) team_ABC_roles :: Team where
  "team_ABC_roles \<equiv> \<lparr>team_id = 5, roomId = 9, team_name = ''Team1'', players = [10, 20, 30],
                       describer = Some 10, teamLeader = Some 20\<rparr>"

section \<open>Queries, indices and updates: basic facts\<close>

lemma findOne_query_None_iff: "findOne_query P s = None \<longleftrightarrow> (\<forall>t \<in> set s. \<not> P t)"
  by (induction s) auto

lemma findOne_query_SomeD: "findOne_query P s = Some t \<Longrightarrow> P t \<and> t \<in> set s"
  by (induction s) (auto split: if_splits)

lemma findOneAndUpdate_None: "findOne_query P s = None \<Longrightarrow> findOneAndUpdate P f s = (None, s)"
  by (induction s) (auto split: if_splits)

lemma findOneAndUpdate_fst: "findOne_query P s = Some t \<Longrightarrow> fst (findOneAndUpdate P f s) = Some (f t)"
  by (induction s) (auto split: if_splits prod.splits)

lemma findOneAndUpdate_refind:
  "findOne_query P s = Some t \<Longrightarrow> P (f t) \<Longrightarrow> findOne_query P (snd (findOneAndUpdate P f s)) = Some (f t)"
  by (induction s) (auto split: if_splits prod.splits)

lemma findOneAndUpdate_list_all:
  "list_all Q s \<Longrightarrow> (\<And>t. findOne_query P s = Some t \<Longrightarrow> Q (f t)) \<Longrightarrow> list_all Q (snd (findOneAndUpdate P f s))"
  by (induction s) (auto split: if_splits prod.splits)

lemma indexOf_ge: "- 1 \<le> indexOf ps x"
  by (induction ps) (auto simp: Let_def)

lemma indexOf_notin: "x \<notin> set ps \<Longrightarrow> indexOf ps x = - 1"
  by (induction ps) (auto simp: Let_def)

lemma indexOf_in: "x \<in> set ps \<Longrightarrow> 0 \<le> indexOf ps x \<and> indexOf ps x < int (length ps) \<and> ps ! nat (indexOf ps x) = x"
  by (induction ps) (auto simp: Let_def nat_add_distrib)

lemma includes_id_iff: "includes_id ps x \<longleftrightarrow> x \<in> set ps"
  using indexOf_in[of x ps] indexOf_notin[of x ps] by (auto simp: includes_id_def)

lemma indexOf_nth: "distinct ps \<Longrightarrow> i < length ps \<Longrightarrow> indexOf ps (ps ! i) = int i"
proof (induction ps arbitrary: i)
  case Nil then show ?case by simp
next
  case (Cons p ps)
  show ?case
  proof (cases i)
    case 0 then show ?thesis by simp
  next
    case (Suc j)
    with Cons.prems have j: "j < length ps" and d: "distinct ps" and np: "p \<notin> set ps" by auto
    from j np have "p \<noteq> ps ! j" by (metis nth_mem)
    with Cons.IH[OF d j] Suc show ?thesis by (simp add: Let_def)
  qed
qed

lemma findOne_iff: "findOne rid tid store = Inr team \<longleftrightarrow> findOne_query (by_id_room tid rid) store = Some team"
  by (simp add: findOne_def split: option.splits)

lemmas rotation_defs = defineDescriberAndLeader_def by_id_room_def setDescriber_def setTeamLeader_def
     nextDescriberIndex_def nextLeaderIndex_def currentDescriberIndex_def js_add_def js_rem_def at_index_def
     set_describer_def set_teamLeader_def

section \<open>Rotation\<close>

lemma by_id_room_set_describer: "by_id_room tid rid (set_describer u t) = by_id_room tid rid t"
  by (cases u) (simp_all add: by_id_room_def set_describer_def)

lemma by_id_room_set_teamLeader: "by_id_room tid rid (set_teamLeader u t) = by_id_room tid rid t"
  by (cases u) (simp_all add: by_id_room_def set_teamLeader_def)

lemma by_id_room_pull_player: "by_id_room tid rid (pull_player u t) = by_id_room tid rid t"
  by (simp add: by_id_room_def pull_player_def)

lemma setDescriber_found:
  assumes "findOne_query (by_id_room tid rid) s = Some t"
  shows "setDescriber rid tid u s
           = (Inr (set_describer u t), snd (findOneAndUpdate (by_id_room tid rid) (set_describer u) s))"
  using findOneAndUpdate_fst[OF assms, of "set_describer u"]
  by (cases "findOneAndUpdate (by_id_room tid rid) (set_describer u) s") (simp add: setDescriber_def)

lemma setTeamLeader_found:
  assumes "findOne_query (by_id_room tid rid) s = Some t"
  shows "setTeamLeader rid tid u s
           = (Inr (set_teamLeader u t), snd (findOneAndUpdate (by_id_room tid rid) (set_teamLeader u) s))"
  using findOneAndUpdate_fst[OF assms, of "set_teamLeader u"]
  by (cases "findOneAndUpdate (by_id_room tid rid) (set_teamLeader u) s") (simp add: setTeamLeader_def)

lemma defineDescriberAndLeader_found:
  assumes found: "findOne_query (by_id_room tid rid) s = Some t"
  defines "nd \<equiv> at_index (players t) (nextDescriberIndex (players t) (describer t))"
    and "nl \<equiv> at_index (players t) (nextLeaderIndex (players t) (describer t))"
  shows "fst (defineDescriberAndLeader rid tid s) = Inr (set_teamLeader nl (set_describer nd t))"
    and "findOne_query (by_id_room tid rid) (snd (defineDescriberAndLeader rid tid s))
           = Some (set_teamLeader nl (set_describer nd t))"
proof -
  let ?P = "by_id_room tid rid"
  let ?s1 = "snd (findOneAndUpdate ?P (set_describer nd) s)"
  let ?t1 = "set_describer nd t"
  have Pt: "?P t" using found by (simp add: findOne_query_SomeD)
  have sd: "setDescriber rid tid nd s = (Inr ?t1, ?s1)"
    using setDescriber_found[OF found] .
  have f1: "findOne_query ?P ?s1 = Some ?t1"
    using findOneAndUpdate_refind[OF found, of "set_describer nd"] Pt
    by (simp add: by_id_room_set_describer)
  have P1: "?P ?t1" using Pt by (simp add: by_id_room_set_describer)
  let ?s2 = "snd (findOneAndUpdate ?P (set_teamLeader nl) ?s1)"
  have sl: "setTeamLeader rid tid nl ?s1 = (Inr (set_teamLeader nl ?t1), ?s2)"
    using setTeamLeader_found[OF f1] .
  have f2: "findOne_query ?P ?s2 = Some (set_teamLeader nl ?t1)"
    using findOneAndUpdate_refind[OF f1, of "set_teamLeader nl"] P1
    by (simp add: by_id_room_set_teamLeader)
  have d: "defineDescriberAndLeader rid tid s = (Inr (set_teamLeader nl ?t1), ?s2)"
    using found sd sl by (simp add: defineDescriberAndLeader_def nd_def nl_def Let_def)
  show "fst (defineDescriberAndLeader rid tid s) = Inr (set_teamLeader nl (set_describer nd t))"
    using d by simp
  show "findOne_query ?P (snd (defineDescriberAndLeader rid tid s)) = Some (set_teamLeader nl (set_describer nd t))"
    using d f2 by simp
qed

lemma js_rem_nat: "0 < n \<Longrightarrow> js_rem (Some (int a)) (Some (int n)) = Some (int (a mod n))"
  by (cases "a = 0") (simp_all add: js_rem_def zmod_int)

lemma js_succ_rem:
  "0 < n \<Longrightarrow> js_rem (js_add (Some (int a)) (Some 1)) (Some (int n)) = Some (int (Suc a mod n))"
proof -
  assume n: "0 < n"
  have "js_add (Some (int a)) (Some 1) = Some (int (Suc a))" by (simp add: js_add_def)
  then show ?thesis using js_rem_nat[OF n, of "Suc a"] by (simp only:)
qed

lemma at_index_nat: "j < length xs \<Longrightarrow> at_index xs (Some (int j)) = Some (xs ! j)"
  by (simp add: at_index_def)

lemma nextDescriberIndex_unset: "ps \<noteq> [] \<Longrightarrow> nextDescriberIndex ps None = Some 0"
  by (simp add: nextDescriberIndex_def currentDescriberIndex_def js_add_def js_rem_def)

lemma nextDescriberIndex_stale: "ps \<noteq> [] \<Longrightarrow> d \<notin> set ps \<Longrightarrow> nextDescriberIndex ps (Some d) = Some 0"
  by (simp add: nextDescriberIndex_def currentDescriberIndex_def js_add_def js_rem_def indexOf_notin)

lemma nextDescriberIndex_nth:
  assumes "distinct ps" "i < length ps"
  shows "nextDescriberIndex ps (Some (ps ! i)) = Some (int (Suc i mod length ps))"
proof -
  from assms have n: "0 < length ps" by auto
  show ?thesis
    using assms js_succ_rem[OF n, of i]
    by (simp add: nextDescriberIndex_def currentDescriberIndex_def indexOf_nth)
qed

lemma nextLeaderIndex_nat:
  assumes "nextDescriberIndex ps d = Some (int j)" "ps \<noteq> []"
  shows "nextLeaderIndex ps d = Some (int (Suc j mod length ps))"
proof -
  from assms have n: "0 < length ps" by auto
  show ?thesis
    using assms(1) js_succ_rem[OF n, of j] by (simp add: nextLeaderIndex_def)
qed

lemma rotate_step:
  assumes found: "findOne_query (by_id_room tid rid) s = Some t"
    and nd: "nextDescriberIndex (players t) (describer t) = Some (int j)"
    and j: "j < length (players t)"
  shows "fst (defineDescriberAndLeader rid tid s)
           = Inr (t\<lparr>describer := Some (players t ! j),
                    teamLeader := Some (players t ! (Suc j mod length (players t)))\<rparr>)"
    and "findOne_query (by_id_room tid rid) (snd (defineDescriberAndLeader rid tid s))
           = Some (t\<lparr>describer := Some (players t ! j),
                     teamLeader := Some (players t ! (Suc j mod length (players t)))\<rparr>)"
proof -
  from j have ne: "players t \<noteq> []" by auto
  have a: "at_index (players t) (nextDescriberIndex (players t) (describer t)) = Some (players t ! j)"
    using nd j by (simp add: at_index_nat)
  have b: "at_index (players t) (nextLeaderIndex (players t) (describer t))
             = Some (players t ! (Suc j mod length (players t)))"
  proof -
    from j have "Suc j mod length (players t) < length (players t)" by (intro mod_less_divisor) auto
    then show ?thesis using nextLeaderIndex_nat[OF nd ne] by (simp add: at_index_nat)
  qed
  show "fst (defineDescriberAndLeader rid tid s)
           = Inr (t\<lparr>describer := Some (players t ! j),
                    teamLeader := Some (players t ! (Suc j mod length (players t)))\<rparr>)"
    using defineDescriberAndLeader_found(1)[OF found] a b
    by (simp add: set_describer_def set_teamLeader_def)
  show "findOne_query (by_id_room tid rid) (snd (defineDescriberAndLeader rid tid s))
           = Some (t\<lparr>describer := Some (players t ! j),
                     teamLeader := Some (players t ! (Suc j mod length (players t)))\<rparr>)"
    using defineDescriberAndLeader_found(2)[OF found] a b
    by (simp add: set_describer_def set_teamLeader_def)
qed

lemma rotations_from:
  assumes "findOne_query (by_id_room tid rid) s = Some t"
    and "nextDescriberIndex (players t) (describer t) = Some (int j)"
    and "j < length (players t)" and "distinct (players t)"
  shows "fst (rotations k rid tid s)
           = Inr (t\<lparr>describer := Some (players t ! ((j + k) mod length (players t))),
                    teamLeader := Some (players t ! (Suc ((j + k) mod length (players t)) mod length (players t)))\<rparr>)"
  using assms
proof (induction k arbitrary: s t j)
  case 0
  then show ?case using rotate_step(1)[of tid rid s t j] by simp
next
  case (Suc k)
  let ?n = "length (players t)"
  let ?t1 = "t\<lparr>describer := Some (players t ! j), teamLeader := Some (players t ! (Suc j mod ?n))\<rparr>"
  let ?s1 = "snd (defineDescriberAndLeader rid tid s)"
  have f1: "findOne_query (by_id_room tid rid) ?s1 = Some ?t1"
    using rotate_step(2)[OF Suc.prems(1,2,3)] .
  have n1: "nextDescriberIndex (players ?t1) (describer ?t1) = Some (int (Suc j mod ?n))"
    using nextDescriberIndex_nth[OF Suc.prems(4,3)] by simp
  have "Suc j mod ?n < ?n" using Suc.prems(3) by (intro mod_less_divisor) auto
  then have j1: "Suc j mod ?n < length (players ?t1)" by simp
  have d1: "distinct (players ?t1)" using Suc.prems(4) by simp
  have e: "(Suc j mod ?n + k) mod ?n = (j + Suc k) mod ?n"
    by (metis add_Suc add_Suc_right mod_add_left_eq)
  show ?case using Suc.IH[OF f1 n1 j1 d1] e by simp
qed

lemma rotations_stored:
  assumes "findOne_query (by_id_room tid rid) s = Some t"
    and "nextDescriberIndex (players t) (describer t) = Some (int j)"
    and "j < length (players t)" and "distinct (players t)"
  shows "findOne_query (by_id_room tid rid) (snd (rotations k rid tid s))
           = Some (t\<lparr>describer := Some (players t ! ((j + k) mod length (players t))),
                     teamLeader := Some (players t ! (Suc ((j + k) mod length (players t)) mod length (players t)))\<rparr>)"
  using assms
proof (induction k arbitrary: s t j)
  case 0
  then show ?case using rotate_step(2)[of tid rid s t j] by simp
next
  case (Suc k)
  let ?n = "length (players t)"
  let ?t1 = "t\<lparr>describer := Some (players t ! j), teamLeader := Some (players t ! (Suc j mod ?n))\<rparr>"
  let ?s1 = "snd (defineDescriberAndLeader rid tid s)"
  have f1: "findOne_query (by_id_room tid rid) ?s1 = Some ?t1"
    using rotate_step(2)[OF Suc.prems(1,2,3)] .
  have n1: "nextDescriberIndex (players ?t1) (describer ?t1) = Some (int (Suc j mod ?n))"
    using nextDescriberIndex_nth[OF Suc.prems(4,3)] by simp
  have "Suc j mod ?n < ?n" using Suc.prems(3) by (intro mod_less_divisor) auto
  then have j1: "Suc j mod ?n < length (players ?t1)" by simp
  have d1: "distinct (players ?t1)" using Suc.prems(4) by simp
  have e: "(Suc j mod ?n + k) mod ?n = (j + Suc k) mod ?n"
    by (metis add_Suc add_Suc_right mod_add_left_eq)
  show ?case using Suc.IH[OF f1 n1 j1 d1] e by simp
qed

lemma nextDescriberIndex_range:
  assumes "ps \<noteq> []"
  shows "\<exists>j < length ps. nextDescriberIndex ps d = Some (int j)"
proof -
  from assms have pos: "0 < length ps" by simp
  obtain a where a: "js_add (currentDescriberIndex ps d) (Some 1) = Some (int a)"
  proof (cases d)
    case None
    then have "js_add (currentDescriberIndex ps d) (Some 1) = Some (int 0)"
      by (simp add: currentDescriberIndex_def js_add_def)
    then show ?thesis using that by blast
  next
    case (Some x)
    have "0 \<le> indexOf ps x + 1" using indexOf_ge[of ps x] by simp
    then have "js_add (currentDescriberIndex ps d) (Some 1) = Some (int (nat (indexOf ps x + 1)))"
      using Some by (simp add: currentDescriberIndex_def js_add_def)
    then show ?thesis using that by blast
  qed
  have "nextDescriberIndex ps d = Some (int (a mod length ps))"
    using a js_rem_nat[OF pos, of a] by (simp add: nextDescriberIndex_def)
  moreover have "a mod length ps < length ps" using pos by (rule mod_less_divisor)
  ultimately show ?thesis by blast
qed

text \<open>
  Claim C1, as amended. For a team found in the room with a non-empty player list of length
  \<open>n\<close>, a call of \<open>defineDescriberAndLeader\<close> succeeds, makes the player at the next
  describer index \<open>j\<close> the describer and the player at index \<open>(j + 1) mod n\<close> the team
  leader, answers the team so updated, and that is the team stored in the collection
  afterwards. If moreover no identifier occurs twice in the list, call number \<open>k + 1\<close>
  makes the player at index \<open>k mod n\<close> the describer when the describer was unset at the
  start, and the player at index \<open>(i + 1 + k) mod n\<close> when the describer was the player at
  index \<open>i\<close>, in the answer and in the stored team alike: the describer indices run
  \<open>0, 1, ..., n - 1, 0, ...\<close>.
\<close>

theorem rotation_cycle:
  assumes found: "findOne rid tid store = Inr team"
    and ne: "players team \<noteq> []"
  shows "(\<exists>j < length (players team).
            nextDescriberIndex (players team) (describer team) = Some (int j)
          \<and> nextLeaderIndex (players team) (describer team) = Some (int ((j + 1) mod length (players team)))
          \<and> fst (defineDescriberAndLeader rid tid store)
              = Inr (team\<lparr>describer := Some (players team ! j),
                          teamLeader := Some (players team ! ((j + 1) mod length (players team)))\<rparr>)
          \<and> findOne rid tid (snd (defineDescriberAndLeader rid tid store))
              = Inr (team\<lparr>describer := Some (players team ! j),
                          teamLeader := Some (players team ! ((j + 1) mod length (players team)))\<rparr>))
       \<and> (distinct (players team) \<and> describer team = None \<longrightarrow>
            fst (rotations k rid tid store)
              = Inr (team\<lparr>describer := Some (players team ! (k mod length (players team))),
                          teamLeader := Some (players team ! ((k mod length (players team) + 1) mod length (players team)))\<rparr>)
          \<and> findOne rid tid (snd (rotations k rid tid store))
              = Inr (team\<lparr>describer := Some (players team ! (k mod length (players team))),
                          teamLeader := Some (players team ! ((k mod length (players team) + 1) mod length (players team)))\<rparr>))
       \<and> (\<forall>i < length (players team). distinct (players team) \<and> describer team = Some (players team ! i) \<longrightarrow>
            fst (rotations k rid tid store)
              = Inr (team\<lparr>describer := Some (players team ! ((i + 1 + k) mod length (players team))),
                          teamLeader := Some (players team ! (((i + 1 + k) mod length (players team) + 1) mod length (players team)))\<rparr>)
          \<and> findOne rid tid (snd (rotations k rid tid store))
              = Inr (team\<lparr>describer := Some (players team ! ((i + 1 + k) mod length (players team))),
                          teamLeader := Some (players team ! (((i + 1 + k) mod length (players team) + 1) mod length (players team)))\<rparr>))"
proof -
  let ?n = "length (players team)"
  have q: "findOne_query (by_id_room tid rid) store = Some team"
    using found by (simp add: findOne_iff)
  have pos: "0 < ?n" using ne by simp
  have one: "\<exists>j < ?n. nextDescriberIndex (players team) (describer team) = Some (int j)
          \<and> nextLeaderIndex (players team) (describer team) = Some (int ((j + 1) mod ?n))
          \<and> fst (defineDescriberAndLeader rid tid store)
              = Inr (team\<lparr>describer := Some (players team ! j),
                          teamLeader := Some (players team ! ((j + 1) mod ?n))\<rparr>)
          \<and> findOne rid tid (snd (defineDescriberAndLeader rid tid store))
              = Inr (team\<lparr>describer := Some (players team ! j),
                          teamLeader := Some (players team ! ((j + 1) mod ?n))\<rparr>)"
  proof -
    obtain j where j: "j < ?n" and nd: "nextDescriberIndex (players team) (describer team) = Some (int j)"
      using nextDescriberIndex_range[OF ne] by blast
    show ?thesis
      using j nd nextLeaderIndex_nat[OF nd ne] rotate_step(1)[OF q nd j] rotate_step(2)[OF q nd j]
      by (intro exI[of _ j]) (simp add: findOne_iff)
  qed
  have unset: "distinct (players team) \<and> describer team = None \<longrightarrow>
            fst (rotations k rid tid store)
              = Inr (team\<lparr>describer := Some (players team ! (k mod ?n)),
                          teamLeader := Some (players team ! ((k mod ?n + 1) mod ?n))\<rparr>)
          \<and> findOne rid tid (snd (rotations k rid tid store))
              = Inr (team\<lparr>describer := Some (players team ! (k mod ?n)),
                          teamLeader := Some (players team ! ((k mod ?n + 1) mod ?n))\<rparr>)"
  proof
    assume a: "distinct (players team) \<and> describer team = None"
    then have dist: "distinct (players team)" and u: "describer team = None" by simp_all
    have nd: "nextDescriberIndex (players team) (describer team) = Some (int 0)"
      using u ne by (simp add: nextDescriberIndex_unset)
    show "fst (rotations k rid tid store)
              = Inr (team\<lparr>describer := Some (players team ! (k mod ?n)),
                          teamLeader := Some (players team ! ((k mod ?n + 1) mod ?n))\<rparr>)
          \<and> findOne rid tid (snd (rotations k rid tid store))
              = Inr (team\<lparr>describer := Some (players team ! (k mod ?n)),
                          teamLeader := Some (players team ! ((k mod ?n + 1) mod ?n))\<rparr>)"
      using rotations_from[OF q nd pos dist, of k] rotations_stored[OF q nd pos dist, of k]
      by (simp add: findOne_iff)
  qed
  have set: "\<forall>i < ?n. distinct (players team) \<and> describer team = Some (players team ! i) \<longrightarrow>
            fst (rotations k rid tid store)
              = Inr (team\<lparr>describer := Some (players team ! ((i + 1 + k) mod ?n)),
                          teamLeader := Some (players team ! (((i + 1 + k) mod ?n + 1) mod ?n))\<rparr>)
          \<and> findOne rid tid (snd (rotations k rid tid store))
              = Inr (team\<lparr>describer := Some (players team ! ((i + 1 + k) mod ?n)),
                          teamLeader := Some (players team ! (((i + 1 + k) mod ?n + 1) mod ?n))\<rparr>)"
  proof (intro allI impI)
    fix i assume i: "i < ?n" and a: "distinct (players team) \<and> describer team = Some (players team ! i)"
    then have dist: "distinct (players team)" and d: "describer team = Some (players team ! i)" by simp_all
    have b: "Suc i mod ?n < ?n" using pos by (intro mod_less_divisor)
    have nd: "nextDescriberIndex (players team) (describer team) = Some (int (Suc i mod ?n))"
      using d nextDescriberIndex_nth[OF dist i] by simp
    have e: "(Suc i mod ?n + k) mod ?n = (i + 1 + k) mod ?n"
      by (simp add: mod_add_left_eq)
    show "fst (rotations k rid tid store)
              = Inr (team\<lparr>describer := Some (players team ! ((i + 1 + k) mod ?n)),
                          teamLeader := Some (players team ! (((i + 1 + k) mod ?n + 1) mod ?n))\<rparr>)
          \<and> findOne rid tid (snd (rotations k rid tid store))
              = Inr (team\<lparr>describer := Some (players team ! ((i + 1 + k) mod ?n)),
                          teamLeader := Some (players team ! (((i + 1 + k) mod ?n + 1) mod ?n))\<rparr>)"
      using rotations_from[OF q nd b dist, of k] rotations_stored[OF q nd b dist, of k] e
      by (simp add: findOne_iff)
  qed
  show ?thesis using one unset set by blast
qed

theorem rotation_cycle_witness:
  "findOne 9 5 [team_ABC, team_A] = Inr team_ABC \<and> players team_ABC \<noteq> [] \<and> distinct (players team_ABC)
   \<and> fst (rotations 0 9 5 [team_ABC, team_A]) = Inr (team_ABC\<lparr>describer := Some 10, teamLeader := Some 20\<rparr>)
   \<and> findOne 9 5 (snd (rotations 0 9 5 [team_ABC, team_A])) = Inr (team_ABC\<lparr>describer := Some 10, teamLeader := Some 20\<rparr>)
   \<and> fst (rotations 1 9 5 [team_ABC, team_A]) = Inr (team_ABC\<lparr>describer := Some 20, teamLeader := Some 30\<rparr>)
   \<and> findOne 9 5 (snd (rotations 1 9 5 [team_ABC, team_A])) = Inr (team_ABC\<lparr>describer := Some 20, teamLeader := Some 30\<rparr>)
   \<and> fst (rotations 2 9 5 [team_ABC, team_A]) = Inr (team_ABC\<lparr>describer := Some 30, teamLeader := Some 10\<rparr>)
   \<and> findOne 9 5 (snd (rotations 2 9 5 [team_ABC, team_A])) = Inr (team_ABC\<lparr>describer := Some 30, teamLeader := Some 10\<rparr>)
   \<and> fst (rotations 3 9 5 [team_ABC, team_A]) = Inr (team_ABC\<lparr>describer := Some 10, teamLeader := Some 20\<rparr>)
   \<and> findOne 9 5 (snd (rotations 3 9 5 [team_ABC, team_A])) = Inr (team_ABC\<lparr>describer := Some 10, teamLeader := Some 20\<rparr>)
   \<and> findOne 9 6 [team_ABC, team_A] = Inr team_A
   \<and> fst (rotations 0 9 6 [team_ABC, team_A]) = Inr (team_A\<lparr>describer := Some 10, teamLeader := Some 10\<rparr>)
   \<and> findOne 9 6 (snd (rotations 0 9 6 [team_ABC, team_A])) = Inr (team_A\<lparr>describer := Some 10, teamLeader := Some 10\<rparr>)"
  using rotation_cycle[of 9 5 "[team_ABC, team_A]" team_ABC 0]
        rotation_cycle[of 9 5 "[team_ABC, team_A]" team_ABC 1]
        rotation_cycle[of 9 5 "[team_ABC, team_A]" team_ABC 2]
        rotation_cycle[of 9 5 "[team_ABC, team_A]" team_ABC 3]
        rotation_cycle[of 9 6 "[team_ABC, team_A]" team_A 0]
  by (simp add: findOne_def by_id_room_def)

theorem rotation_cycle_counterexample:
  "findOne 9 7 [team_AAB] = Inr team_AAB \<and> describer team_AAB = None
   \<and> rotations 0 9 7 [team_AAB]
        = (Inr (team_AAB\<lparr>describer := Some 1, teamLeader := Some 1\<rparr>),
           [team_AAB\<lparr>describer := Some 1, teamLeader := Some 1\<rparr>])
   \<and> rotations 1 9 7 [team_AAB]
        = (Inr (team_AAB\<lparr>describer := Some 1, teamLeader := Some 2\<rparr>),
           [team_AAB\<lparr>describer := Some 1, teamLeader := Some 2\<rparr>])
   \<and> rotations 2 9 7 [team_AAB]
        = (Inr (team_AAB\<lparr>describer := Some 1, teamLeader := Some 2\<rparr>),
           [team_AAB\<lparr>describer := Some 1, teamLeader := Some 2\<rparr>])
   \<and> nextDescriberIndex (players team_AAB) (Some 1) = Some 1
   \<and> fst (rotations 2 9 7 [team_AAB])
        \<noteq> Inr (team_AAB\<lparr>describer := Some (players team_AAB ! (2 mod 3)),
                          teamLeader := Some (players team_AAB ! ((2 mod 3 + 1) mod 3))\<rparr>)"
  by (simp add: findOne_def rotation_defs numeral_2_eq_2 Let_def)

text \<open>
  Claim C10. When the describer is set but is not in the (non-empty) player list, the index
  lookup gives \<open>-1\<close>, the same as for an unset describer: the rotation makes the first
  player the describer and the player at index \<open>1 mod n\<close> the team leader, and that is the
  team stored afterwards.
\<close>

theorem stale_describer_restarts:
  assumes found: "findOne rid tid store = Inr team"
    and d: "describer team = Some d"
    and stale: "d \<notin> set (players team)"
    and ne: "players team \<noteq> []"
  shows "currentDescriberIndex (players team) (describer team) = Some (- 1)
       \<and> nextDescriberIndex (players team) (describer team) = Some 0
       \<and> nextDescriberIndex (players team) (describer team) = nextDescriberIndex (players team) None
       \<and> nextLeaderIndex (players team) (describer team) = nextLeaderIndex (players team) None
       \<and> fst (defineDescriberAndLeader rid tid store)
           = Inr (team\<lparr>describer := Some (players team ! 0),
                       teamLeader := Some (players team ! (1 mod length (players team)))\<rparr>)
       \<and> findOne rid tid (snd (defineDescriberAndLeader rid tid store))
           = Inr (team\<lparr>describer := Some (players team ! 0),
                       teamLeader := Some (players team ! (1 mod length (players team)))\<rparr>)"
proof -
  have q: "findOne_query (by_id_room tid rid) store = Some team"
    using found by (simp add: findOne_iff)
  have pos: "0 < length (players team)" using ne by simp
  have nd: "nextDescriberIndex (players team) (describer team) = Some (int 0)"
    using d stale ne by (simp add: nextDescriberIndex_stale)
  have nu: "nextDescriberIndex (players team) None = Some 0"
    using ne by (simp add: nextDescriberIndex_unset)
  have c: "currentDescriberIndex (players team) (describer team) = Some (- 1)"
    using d stale by (simp add: currentDescriberIndex_def indexOf_notin)
  have l: "nextLeaderIndex (players team) (describer team) = nextLeaderIndex (players team) None"
    using nd nu by (simp add: nextLeaderIndex_def)
  show ?thesis
    using c nd nu l rotate_step(1)[OF q nd pos] rotate_step(2)[OF q nd pos]
    by (simp add: findOne_iff)
qed

theorem stale_describer_restarts_witness:
  "removePlayer 9 5 10 [team_ABC_roles]
     = (Inr (team_ABC_roles\<lparr>players := [20, 30]\<rparr>), [team_ABC_roles\<lparr>players := [20, 30]\<rparr>])
   \<and> findOne 9 5 [team_ABC_roles\<lparr>players := [20, 30]\<rparr>] = Inr (team_ABC_roles\<lparr>players := [20, 30]\<rparr>)
   \<and> describer (team_ABC_roles\<lparr>players := [20, 30]\<rparr>) = Some 10
   \<and> 10 \<notin> set (players (team_ABC_roles\<lparr>players := [20, 30]\<rparr>))
   \<and> fst (defineDescriberAndLeader 9 5 (snd (removePlayer 9 5 10 [team_ABC_roles])))
       = Inr (team_ABC_roles\<lparr>players := [20, 30], describer := Some 20, teamLeader := Some 30\<rparr>)"
proof -
  have r: "removePlayer 9 5 10 [team_ABC_roles]
     = (Inr (team_ABC_roles\<lparr>players := [20, 30]\<rparr>), [team_ABC_roles\<lparr>players := [20, 30]\<rparr>])"
    by (simp add: removePlayer_def by_id_room_def pull_player_def)
  show ?thesis
    using r stale_describer_restarts[of 9 5 "[team_ABC_roles\<lparr>players := [20, 30]\<rparr>]"
                "team_ABC_roles\<lparr>players := [20, 30]\<rparr>" 10]
    by (simp add: findOne_def by_id_room_def)
qed

section \<open>Membership\<close>

text \<open>
  Claim C3. Adding a player to a team that holds exactly three players fails with
  \<open>BadRequestException\<close> "Team is already full.", whoever the player is and whatever
  else the team holds, and leaves the collection as it was.
\<close>

theorem addPlayerToTeam_full:
  "findTeamById tid store = Inr (Some team) \<Longrightarrow> length (players team) = 3 \<Longrightarrow>
   addPlayerToTeam uid tid store = (Inl (BadRequestException (Text ''Team is already full.'')), store)"
  by (simp add: addPlayerToTeam_def MAX_USERS_IN_TEAM_def)

theorem addPlayerToTeam_full_witness:
  "findTeamById 5 [team_ABC, team_A] = Inr (Some team_ABC) \<and> length (players team_ABC) = 3
   \<and> addPlayerToTeam 20 5 [team_ABC, team_A]
        = (Inl (BadRequestException (Text ''Team is already full.'')), [team_ABC, team_A])
   \<and> addPlayerToTeam 40 5 [team_ABC, team_A]
        = (Inl (BadRequestException (Text ''Team is already full.'')), [team_ABC, team_A])"
  using addPlayerToTeam_full[of 5 "[team_ABC, team_A]" team_ABC 20]
        addPlayerToTeam_full[of 5 "[team_ABC, team_A]" team_ABC 40]
  by (simp add: findTeamById_def by_id_def)

text \<open>
  Claim C4, as amended. Adding a player who is already in the list of a found team fails
  and leaves the collection as it was: with \<open>BadRequestException\<close> "User is already in
  the team." when the team holds fewer than three players, and with "Team is already
  full." otherwise, the capacity being checked first.
\<close>

theorem addPlayerToTeam_duplicate:
  "findTeamById tid store = Inr (Some team) \<Longrightarrow> uid \<in> set (players team) \<Longrightarrow>
   addPlayerToTeam uid tid store
     = (if length (players team) < 3
        then (Inl (BadRequestException (Text ''User is already in the team.'')), store)
        else (Inl (BadRequestException (Text ''Team is already full.'')), store))"
  by (simp add: addPlayerToTeam_def MAX_USERS_IN_TEAM_def includes_id_iff)

theorem addPlayerToTeam_duplicate_witness:
  "findTeamById 8 [team_ABC, team_AB] = Inr (Some team_AB) \<and> length (players team_AB) < 3
   \<and> 20 \<in> set (players team_AB)
   \<and> addPlayerToTeam 20 8 [team_ABC, team_AB]
        = (Inl (BadRequestException (Text ''User is already in the team.'')), [team_ABC, team_AB])"
  using addPlayerToTeam_duplicate[of 8 "[team_ABC, team_AB]" team_AB 20]
  by (simp add: findTeamById_def by_id_def)

theorem addPlayerToTeam_duplicate_counterexample:
  "findTeamById 5 [team_ABC] = Inr (Some team_ABC) \<and> 10 \<in> set (players team_ABC)
   \<and> addPlayerToTeam 10 5 [team_ABC]
        = (Inl (BadRequestException (Text ''Team is already full.'')), [team_ABC])
   \<and> fst (addPlayerToTeam 10 5 [team_ABC])
        \<noteq> Inl (BadRequestException (Text ''User is already in the team.''))"
  by (simp add: addPlayerToTeam_def findTeamById_def by_id_def MAX_USERS_IN_TEAM_def)

lemma update_Inr: "\<exists>r store'. update tid ps store = (Inr r, store')"
  by (cases "findOneAndUpdate (by_id tid) (set_players ps) store") (simp add: update_def)

text \<open>
  Claim C9. When \<open>addPlayerToTeam\<close> fails, the collection is exactly as before the call,
  and the failure is one of: team not found, team full, user already in the team.
\<close>

theorem addPlayerToTeam_error_atomic:
  assumes "fst (addPlayerToTeam uid tid store) = Inl e"
  shows "snd (addPlayerToTeam uid tid store) = store
         \<and> e \<in> {NotFoundException (Text ''Team not found.''),
                 BadRequestException (Text ''Team is already full.''),
                 BadRequestException (Text ''User is already in the team.'')}"
proof (cases "findOne_query (by_id tid) store")
  case None
  then show ?thesis using assms by (auto simp: addPlayerToTeam_def findTeamById_def)
next
  case (Some team)
  obtain r store' where u: "update tid (players team @ [uid]) store = (Inr r, store')"
    using update_Inr by blast
  show ?thesis using assms Some u
    by (auto simp: addPlayerToTeam_def findTeamById_def split: if_splits)
qed

theorem addPlayerToTeam_error_atomic_witness:
  "fst (addPlayerToTeam 20 8 [team_ABC, team_AB]) = Inl (BadRequestException (Text ''User is already in the team.''))
   \<and> snd (addPlayerToTeam 20 8 [team_ABC, team_AB]) = [team_ABC, team_AB]
   \<and> fst (addPlayerToTeam 40 5 [team_ABC, team_AB]) = Inl (BadRequestException (Text ''Team is already full.''))
   \<and> snd (addPlayerToTeam 40 5 [team_ABC, team_AB]) = [team_ABC, team_AB]
   \<and> fst (addPlayerToTeam 40 77 [team_ABC, team_AB]) = Inl (NotFoundException (Text ''Team not found.''))
   \<and> snd (addPlayerToTeam 40 77 [team_ABC, team_AB]) = [team_ABC, team_AB]"
proof -
  have a: "fst (addPlayerToTeam 20 8 [team_ABC, team_AB]) = Inl (BadRequestException (Text ''User is already in the team.''))"
    by (simp add: addPlayerToTeam_def findTeamById_def by_id_def MAX_USERS_IN_TEAM_def includes_id_def Let_def)
  have b: "fst (addPlayerToTeam 40 5 [team_ABC, team_AB]) = Inl (BadRequestException (Text ''Team is already full.''))"
    by (simp add: addPlayerToTeam_def findTeamById_def by_id_def MAX_USERS_IN_TEAM_def)
  have c: "fst (addPlayerToTeam 40 77 [team_ABC, team_AB]) = Inl (NotFoundException (Text ''Team not found.''))"
    by (simp add: addPlayerToTeam_def findTeamById_def by_id_def)
  show ?thesis
    using a b c addPlayerToTeam_error_atomic[OF a] addPlayerToTeam_error_atomic[OF b]
      addPlayerToTeam_error_atomic[OF c]
    by simp
qed

lemma findOneAndUpdate_id:
  "(\<And>t. findOne_query P s = Some t \<Longrightarrow> f t = t) \<Longrightarrow> snd (findOneAndUpdate P f s) = s"
  by (induction s) (auto split: if_splits prod.splits)

lemma removePlayer_found:
  assumes "findOne_query (by_id_room tid rid) s = Some t"
  shows "removePlayer rid tid uid s
           = (Inr (pull_player uid t), snd (findOneAndUpdate (by_id_room tid rid) (pull_player uid) s))"
  using findOneAndUpdate_fst[OF assms, of "pull_player uid"]
  by (cases "findOneAndUpdate (by_id_room tid rid) (pull_player uid) s") (simp add: removePlayer_def)

lemma removePlayer_missing:
  assumes "findOne_query (by_id_room tid rid) s = None"
  shows "removePlayer rid tid uid s = (Inl (NotFoundException (TeamInRoomNotFound tid rid)), s)"
  using findOneAndUpdate_None[OF assms] by (simp add: removePlayer_def)

lemma length_filter_count: "length (filter (\<lambda>p. p \<noteq> u) xs) + count_list xs u = length xs"
  by (induction xs) auto

lemma filter_neq_absent: "u \<notin> set xs \<Longrightarrow> filter (\<lambda>p. p \<noteq> u) xs = xs"
  by (induction xs) auto

lemma filter_neq_remove1: "distinct xs \<Longrightarrow> filter (\<lambda>p. p \<noteq> u) xs = remove1 u xs"
  by (induction xs) (auto simp: filter_neq_absent)

text \<open>
  Claim C6, as amended. For a team found in the room, \<open>removePlayer\<close> answers and stores
  the team with every occurrence of the player removed and the other players in their
  order: the list shrinks by the number of occurrences. If the player is not in the list,
  team and collection are unchanged; if the list has no repeated identifier and holds the
  player, it shrinks by exactly one. For a team not found in the room the call fails with
  \<open>NotFoundException\<close> and changes nothing.
\<close>

theorem removePlayer_spec:
  "(findOne rid tid store = Inr team \<longrightarrow>
      (\<exists>t'. fst (removePlayer rid tid uid store) = Inr t'
          \<and> findOne rid tid (snd (removePlayer rid tid uid store)) = Inr t'
          \<and> t' = team\<lparr>players := filter (\<lambda>p. p \<noteq> uid) (players team)\<rparr>
          \<and> length (players t') + count_list (players team) uid = length (players team)
          \<and> (uid \<notin> set (players team) \<longrightarrow> t' = team \<and> snd (removePlayer rid tid uid store) = store)
          \<and> (uid \<in> set (players team) \<and> distinct (players team) \<longrightarrow>
                players t' = remove1 uid (players team)
              \<and> Suc (length (players t')) = length (players team))))
 \<and> (findOne rid tid store = Inl e \<longrightarrow>
      removePlayer rid tid uid store
        = (Inl (NotFoundException (TeamInRoomNotFound tid rid)), store))"
proof (intro conjI impI)
  assume found: "findOne rid tid store = Inr team"
  let ?P = "by_id_room tid rid"
  let ?t' = "team\<lparr>players := filter (\<lambda>p. p \<noteq> uid) (players team)\<rparr>"
  have q: "findOne_query ?P store = Some team" using found by (simp add: findOne_iff)
  have Pt: "?P team" using q by (simp add: findOne_query_SomeD)
  have pp: "pull_player uid team = ?t'" by (simp add: pull_player_def)
  have r: "removePlayer rid tid uid store = (Inr ?t', snd (findOneAndUpdate ?P (pull_player uid) store))"
    using removePlayer_found[OF q, of uid] pp by simp
  have Pp: "?P (pull_player uid team)" using Pt by (simp add: by_id_room_pull_player)
  have f: "findOne rid tid (snd (removePlayer rid tid uid store)) = Inr ?t'"
    using findOneAndUpdate_refind[of ?P store team "pull_player uid", OF q Pp] r pp
    by (simp add: findOne_iff)
  have noop: "uid \<notin> set (players team) \<longrightarrow> ?t' = team \<and> snd (removePlayer rid tid uid store) = store"
  proof
    assume a: "uid \<notin> set (players team)"
    then have e: "pull_player uid team = team" by (simp add: pull_player_def filter_neq_absent)
    have "snd (findOneAndUpdate ?P (pull_player uid) store) = store"
      using q e by (intro findOneAndUpdate_id) simp
    then show "?t' = team \<and> snd (removePlayer rid tid uid store) = store"
      using r e pp by simp
  qed
  have one: "uid \<in> set (players team) \<and> distinct (players team) \<longrightarrow>
                players ?t' = remove1 uid (players team) \<and> Suc (length (players ?t')) = length (players team)"
  proof
    assume a: "uid \<in> set (players team) \<and> distinct (players team)"
    then have "length (remove1 uid (players team)) = length (players team) - 1"
      by (simp add: length_remove1)
    moreover have "0 < length (players team)" using a by (cases "players team") auto
    ultimately show "players ?t' = remove1 uid (players team) \<and> Suc (length (players ?t')) = length (players team)"
      using a by (simp add: filter_neq_remove1)
  qed
  show "\<exists>t'. fst (removePlayer rid tid uid store) = Inr t'
          \<and> findOne rid tid (snd (removePlayer rid tid uid store)) = Inr t'
          \<and> t' = team\<lparr>players := filter (\<lambda>p. p \<noteq> uid) (players team)\<rparr>
          \<and> length (players t') + count_list (players team) uid = length (players team)
          \<and> (uid \<notin> set (players team) \<longrightarrow> t' = team \<and> snd (removePlayer rid tid uid store) = store)
          \<and> (uid \<in> set (players team) \<and> distinct (players team) \<longrightarrow>
                players t' = remove1 uid (players team)
              \<and> Suc (length (players t')) = length (players team))"
  proof (intro exI[of _ ?t'] conjI)
    show "fst (removePlayer rid tid uid store) = Inr ?t'" using r by simp
    show "findOne rid tid (snd (removePlayer rid tid uid store)) = Inr ?t'" by (rule f)
    show "?t' = team\<lparr>players := filter (\<lambda>p. p \<noteq> uid) (players team)\<rparr>" by simp
    show "length (players ?t') + count_list (players team) uid = length (players team)"
      using length_filter_count[of uid "players team"] by simp
    show "uid \<notin> set (players team) \<longrightarrow> ?t' = team \<and> snd (removePlayer rid tid uid store) = store"
      by (rule noop)
    show "uid \<in> set (players team) \<and> distinct (players team) \<longrightarrow>
                players ?t' = remove1 uid (players team) \<and> Suc (length (players ?t')) = length (players team)"
      by (rule one)
  qed
next
  assume "findOne rid tid store = Inl e"
  then have "findOne_query (by_id_room tid rid) store = None"
    by (simp add: findOne_def split: option.splits)
  then show "removePlayer rid tid uid store = (Inl (NotFoundException (TeamInRoomNotFound tid rid)), store)"
    by (rule removePlayer_missing)
qed

theorem removePlayer_spec_witness:
  "findOne 9 5 [team_ABC, team_AB] = Inr team_ABC
   \<and> fst (removePlayer 9 5 20 [team_ABC, team_AB]) = Inr (team_ABC\<lparr>players := [10, 30]\<rparr>)
   \<and> 40 \<notin> set (players team_ABC)
   \<and> removePlayer 9 5 40 [team_ABC, team_AB] = (Inr team_ABC, [team_ABC, team_AB])
   \<and> findOne 3 5 [team_ABC, team_AB] = Inl (NotFoundException (TeamInRoomNotFound 5 3))
   \<and> removePlayer 3 5 20 [team_ABC, team_AB]
        = (Inl (NotFoundException (TeamInRoomNotFound 5 3)), [team_ABC, team_AB])"
proof -
  have a: "findOne 9 5 [team_ABC, team_AB] = Inr team_ABC"
    by (simp add: findOne_def by_id_room_def)
  have b: "findOne 3 5 [team_ABC, team_AB] = Inl (NotFoundException (TeamInRoomNotFound 5 3))"
    by (simp add: findOne_def by_id_room_def)
  show ?thesis
    using a b
      removePlayer_spec[where rid = 9 and tid = 5 and store = "[team_ABC, team_AB]"
        and team = team_ABC and uid = 20]
      removePlayer_spec[where rid = 9 and tid = 5 and store = "[team_ABC, team_AB]"
        and team = team_ABC and uid = 40]
      removePlayer_spec[where rid = 3 and tid = 5 and store = "[team_ABC, team_AB]"
        and e = "NotFoundException (TeamInRoomNotFound 5 3)" and uid = 20]
    by (auto simp: prod_eq_iff)
qed

theorem removePlayer_counterexample:
  "findOne 9 7 [team_AAB] = Inr team_AAB \<and> 1 \<in> set (players team_AAB)
   \<and> length (players team_AAB) = 3
   \<and> removePlayer 9 7 1 [team_AAB]
        = (Inr (team_AAB\<lparr>players := [2]\<rparr>), [team_AAB\<lparr>players := [2]\<rparr>])"
  by (simp add: findOne_def removePlayer_def by_id_room_def pull_player_def)

section \<open>Lookups\<close>

text \<open>
  Claim C7, as amended. \<open>findOne\<close> (and \<open>findAllTeamPlayers\<close>, built on it) fails with
  \<open>NotFoundException\<close> when no team has that identifier in that room. \<open>addPlayerToTeam\<close>,
  which looks the team up with \<open>findTeamById\<close>, fails with \<open>NotFoundException\<close> when no
  team has that identifier. \<open>findAll\<close> answers the empty list without an error for a room
  no team belongs to.
\<close>

theorem lookup_not_found:
  "((\<forall>t \<in> set store. \<not> (team_id t = tid \<and> roomId t = rid)) \<longrightarrow>
       findOne rid tid store = Inl (NotFoundException (TeamInRoomNotFound tid rid))
     \<and> findAllTeamPlayers rid tid store = Inl (NotFoundException (TeamInRoomNotFound tid rid)))
 \<and> ((\<forall>t \<in> set store. team_id t \<noteq> tid) \<longrightarrow>
       addPlayerToTeam uid tid store = (Inl (NotFoundException (Text ''Team not found.'')), store))
 \<and> ((\<forall>t \<in> set store. roomId t \<noteq> rid) \<longrightarrow> findAll rid store = Inr [])"
proof (intro conjI impI)
  assume "\<forall>t \<in> set store. \<not> (team_id t = tid \<and> roomId t = rid)"
  then have "findOne_query (by_id_room tid rid) store = None"
    by (simp add: findOne_query_None_iff by_id_room_def)
  then show "findOne rid tid store = Inl (NotFoundException (TeamInRoomNotFound tid rid))"
    and "findAllTeamPlayers rid tid store = Inl (NotFoundException (TeamInRoomNotFound tid rid))"
    by (simp_all add: findOne_def findAllTeamPlayers_def)
next
  assume "\<forall>t \<in> set store. team_id t \<noteq> tid"
  then have "findOne_query (by_id tid) store = None"
    by (simp add: findOne_query_None_iff by_id_def)
  then show "addPlayerToTeam uid tid store = (Inl (NotFoundException (Text ''Team not found.'')), store)"
    by (simp add: findTeamById_def addPlayerToTeam_def)
next
  assume "\<forall>t \<in> set store. roomId t \<noteq> rid"
  then show "findAll rid store = Inr []"
    by (simp add: findAll_def filter_empty_conv)
qed

theorem lookup_not_found_witness:
  "findOne 3 5 [team_ABC, team_AB] = Inl (NotFoundException (TeamInRoomNotFound 5 3))
   \<and> addPlayerToTeam 40 77 [team_ABC, team_AB]
        = (Inl (NotFoundException (Text ''Team not found.'')), [team_ABC, team_AB])
   \<and> findAll 3 [team_ABC, team_AB] = Inr []"
  using lookup_not_found[where store = "[team_ABC, team_AB]" and tid = 5 and rid = 3]
        lookup_not_found[where store = "[team_ABC, team_AB]" and tid = 77 and rid = 3 and uid = 40]
  by simp

theorem lookup_counterexample:
  "findOne_query (by_id 77) [team_ABC] = None
   \<and> findTeamById 77 [team_ABC] = Inr None
   \<and> filter (\<lambda>t. roomId t = 77) [team_ABC] = []
   \<and> findAll 77 [team_ABC] = Inr []"
  by (simp add: findTeamById_def findAll_def by_id_def)

section \<open>The role invariant\<close>

lemma findOneAndUpdate_compose:
  "(\<And>t. P t \<Longrightarrow> P (f t)) \<Longrightarrow>
   snd (findOneAndUpdate P g (snd (findOneAndUpdate P f s))) = snd (findOneAndUpdate P (\<lambda>t. g (f t)) s)"
  by (induction s) (auto split: if_splits prod.splits)

lemma deleteOne_list_all: "list_all Q s \<Longrightarrow> list_all Q (snd (deleteOne P s))"
  by (induction s) (auto split: if_splits prod.splits)

lemma defineDescriberAndLeader_missing:
  "findOne_query (by_id_room tid rid) s = None \<Longrightarrow>
   defineDescriberAndLeader rid tid s = (Inl (NotFoundException (TeamInRoomNotFound tid rid)), s)"
  by (simp add: defineDescriberAndLeader_def)

lemma defineDescriberAndLeader_store:
  assumes found: "findOne_query (by_id_room tid rid) s = Some t"
  shows "snd (defineDescriberAndLeader rid tid s)
           = snd (findOneAndUpdate (by_id_room tid rid)
                   (\<lambda>x. set_teamLeader (at_index (players t) (nextLeaderIndex (players t) (describer t)))
                          (set_describer (at_index (players t) (nextDescriberIndex (players t) (describer t))) x)) s)"
proof -
  let ?P = "by_id_room tid rid"
  let ?nd = "at_index (players t) (nextDescriberIndex (players t) (describer t))"
  let ?nl = "at_index (players t) (nextLeaderIndex (players t) (describer t))"
  let ?s1 = "snd (findOneAndUpdate ?P (set_describer ?nd) s)"
  have Pt: "?P t" using found by (simp add: findOne_query_SomeD)
  have sd: "setDescriber rid tid ?nd s = (Inr (set_describer ?nd t), ?s1)"
    using setDescriber_found[OF found] .
  have P1: "?P (set_describer ?nd t)" using Pt by (simp add: by_id_room_set_describer)
  have f1: "findOne_query ?P ?s1 = Some (set_describer ?nd t)"
    using findOneAndUpdate_refind[of ?P s t "set_describer ?nd", OF found P1] .
  have sl: "setTeamLeader rid tid ?nl ?s1
              = (Inr (set_teamLeader ?nl (set_describer ?nd t)),
                 snd (findOneAndUpdate ?P (set_teamLeader ?nl) ?s1))"
    using setTeamLeader_found[OF f1] .
  have "snd (defineDescriberAndLeader rid tid s) = snd (findOneAndUpdate ?P (set_teamLeader ?nl) ?s1)"
    using found sd sl by (simp add: defineDescriberAndLeader_def Let_def)
  also have "\<dots> = snd (findOneAndUpdate ?P (\<lambda>x. set_teamLeader ?nl (set_describer ?nd x)) s)"
    by (rule findOneAndUpdate_compose) (simp add: by_id_room_set_describer)
  finally show ?thesis .
qed

lemma Suc_mod_neq: "2 \<le> n \<Longrightarrow> j < n \<Longrightarrow> Suc j mod n \<noteq> j"
  by (cases "Suc j < n") (auto simp: not_less le_Suc_eq)

lemma roles_ok_rotated:
  assumes "2 \<le> length (players t)" "distinct (players t)" "j < length (players t)"
  shows "roles_ok (t\<lparr>describer := Some (players t ! j),
                     teamLeader := Some (players t ! (Suc j mod length (players t)))\<rparr>)"
proof -
  let ?n = "length (players t)"
  have k: "Suc j mod ?n < ?n" using assms(3) by (intro mod_less_divisor) auto
  have "players t ! j \<noteq> players t ! (Suc j mod ?n)"
    using assms k Suc_mod_neq[OF assms(1,3)] by (simp add: nth_eq_iff_index_eq)
  then show ?thesis using assms(3) k by (simp add: roles_ok_def)
qed

lemma rotated_team:
  assumes "players t \<noteq> []"
  shows "\<exists>j < length (players t).
           set_teamLeader (at_index (players t) (nextLeaderIndex (players t) (describer t)))
             (set_describer (at_index (players t) (nextDescriberIndex (players t) (describer t))) t)
           = t\<lparr>describer := Some (players t ! j),
                teamLeader := Some (players t ! (Suc j mod length (players t)))\<rparr>"
proof -
  obtain j where j: "j < length (players t)"
    and nd: "nextDescriberIndex (players t) (describer t) = Some (int j)"
    using nextDescriberIndex_range[OF assms] by blast
  have k: "Suc j mod length (players t) < length (players t)" using j by (intro mod_less_divisor) auto
  have "at_index (players t) (nextDescriberIndex (players t) (describer t)) = Some (players t ! j)"
    using nd j by (simp add: at_index_nat)
  moreover have "at_index (players t) (nextLeaderIndex (players t) (describer t))
                   = Some (players t ! (Suc j mod length (players t)))"
    using nextLeaderIndex_nat[OF nd assms] k by (simp add: at_index_nat)
  ultimately show ?thesis using j by (auto simp: set_describer_def set_teamLeader_def)
qed

lemma roles_ok_pull:
  "roles_ok t \<Longrightarrow> describer t \<noteq> Some u \<Longrightarrow> teamLeader t \<noteq> Some u \<Longrightarrow> roles_ok (pull_player u t)"
  by (auto simp: roles_ok_def pull_player_def split: option.splits)

lemma roles_ok_set_players_append: "roles_ok t \<Longrightarrow> roles_ok (set_players (players t @ [u]) t)"
  by (auto simp: roles_ok_def set_players_def split: option.splits)

lemma list_all_findOne: "list_all Q s \<Longrightarrow> findOne_query P s = Some t \<Longrightarrow> Q t"
  using findOne_query_SomeD[of P s t] by (simp add: list_all_iff)

lemma addPlayerToTeam_store:
  "snd (addPlayerToTeam uid tid store) = store \<or>
   (\<exists>team. findOne_query (by_id tid) store = Some team \<and>
      snd (addPlayerToTeam uid tid store)
        = snd (findOneAndUpdate (by_id tid) (set_players (players team @ [uid])) store))"
  by (cases "findOne_query (by_id tid) store";
      cases "findOneAndUpdate (by_id tid) (set_players (players (the (findOne_query (by_id tid) store)) @ [uid])) store")
     (auto simp: addPlayerToTeam_def findTeamById_def update_def)

text \<open>
  Claim C5, as amended. If every stored team satisfies the role invariant (describer and
  team leader, when both set, are different players of the team's list), then so does every
  stored team after \<open>create\<close>, after \<open>addPlayerToTeam\<close>, after \<open>remove\<close>, after
  \<open>removePlayer\<close> of a player who is neither describer nor team leader of the team
  concerned, and after \<open>defineDescriberAndLeader\<close> on a team of at least two players with
  no repeated identifier.
\<close>

theorem roles_ok_preserved:
  assumes inv: "list_all roles_ok store"
  shows "list_all roles_ok (snd (create new_id rid dto store))
       \<and> list_all roles_ok (snd (addPlayerToTeam uid tid store))
       \<and> list_all roles_ok (snd (remove_team rid tid store))
       \<and> ((\<forall>team. findOne rid tid store = Inr team \<longrightarrow>
                describer team \<noteq> Some uid \<and> teamLeader team \<noteq> Some uid) \<longrightarrow>
            list_all roles_ok (snd (removePlayer rid tid uid store)))
       \<and> ((\<forall>team. findOne rid tid store = Inr team \<longrightarrow>
                2 \<le> length (players team) \<and> distinct (players team)) \<longrightarrow>
            list_all roles_ok (snd (defineDescriberAndLeader rid tid store)))"
proof (intro conjI impI)
  show "list_all roles_ok (snd (create new_id rid dto store))"
    using inv by (simp add: create_def Let_def roles_ok_def)
next
  show "list_all roles_ok (snd (addPlayerToTeam uid tid store))"
    using addPlayerToTeam_store[of uid tid store]
  proof
    assume "snd (addPlayerToTeam uid tid store) = store"
    then show ?thesis using inv by simp
  next
    assume "\<exists>team. findOne_query (by_id tid) store = Some team \<and>
      snd (addPlayerToTeam uid tid store)
        = snd (findOneAndUpdate (by_id tid) (set_players (players team @ [uid])) store)"
    then obtain team where q: "findOne_query (by_id tid) store = Some team"
      and s: "snd (addPlayerToTeam uid tid store)
        = snd (findOneAndUpdate (by_id tid) (set_players (players team @ [uid])) store)" by blast
    have "list_all roles_ok (snd (findOneAndUpdate (by_id tid) (set_players (players team @ [uid])) store))"
    proof (rule findOneAndUpdate_list_all[OF inv])
      fix t assume "findOne_query (by_id tid) store = Some t"
      with q have "t = team" by simp
      then show "roles_ok (set_players (players team @ [uid]) t)"
        using list_all_findOne[OF inv q] by (simp add: roles_ok_set_players_append)
    qed
    then show ?thesis using s by simp
  qed
next
  show "list_all roles_ok (snd (remove_team rid tid store))"
    using deleteOne_list_all[OF inv, of "by_id_room tid rid"]
    by (cases "deleteOne (by_id_room tid rid) store") (simp add: remove_team_def)
next
  assume h: "\<forall>team. findOne rid tid store = Inr team \<longrightarrow>
                describer team \<noteq> Some uid \<and> teamLeader team \<noteq> Some uid"
  have "list_all roles_ok (snd (findOneAndUpdate (by_id_room tid rid) (pull_player uid) store))"
  proof (rule findOneAndUpdate_list_all[OF inv])
    fix t assume q: "findOne_query (by_id_room tid rid) store = Some t"
    then have "describer t \<noteq> Some uid \<and> teamLeader t \<noteq> Some uid"
      using h by (simp add: findOne_iff)
    then show "roles_ok (pull_player uid t)"
      using list_all_findOne[OF inv q] by (simp add: roles_ok_pull)
  qed
  then show "list_all roles_ok (snd (removePlayer rid tid uid store))"
    by (cases "findOneAndUpdate (by_id_room tid rid) (pull_player uid) store")
       (auto simp: removePlayer_def split: option.splits)
next
  assume h: "\<forall>team. findOne rid tid store = Inr team \<longrightarrow>
                2 \<le> length (players team) \<and> distinct (players team)"
  show "list_all roles_ok (snd (defineDescriberAndLeader rid tid store))"
  proof (cases "findOne_query (by_id_room tid rid) store")
    case None
    then show ?thesis using inv by (simp add: defineDescriberAndLeader_missing)
  next
    case (Some t)
    then have two: "2 \<le> length (players t)" and dist: "distinct (players t)"
      using h by (simp_all add: findOne_iff)
    then have ne: "players t \<noteq> []" by auto
    obtain j where j: "j < length (players t)"
      and r: "set_teamLeader (at_index (players t) (nextLeaderIndex (players t) (describer t)))
             (set_describer (at_index (players t) (nextDescriberIndex (players t) (describer t))) t)
           = t\<lparr>describer := Some (players t ! j),
                teamLeader := Some (players t ! (Suc j mod length (players t)))\<rparr>"
      using rotated_team[OF ne] by blast
    have "list_all roles_ok (snd (findOneAndUpdate (by_id_room tid rid)
                   (\<lambda>x. set_teamLeader (at_index (players t) (nextLeaderIndex (players t) (describer t)))
                          (set_describer (at_index (players t) (nextDescriberIndex (players t) (describer t))) x)) store))"
    proof (rule findOneAndUpdate_list_all[OF inv])
      fix t' assume "findOne_query (by_id_room tid rid) store = Some t'"
      with Some have "t' = t" by simp
      then show "roles_ok (set_teamLeader (at_index (players t) (nextLeaderIndex (players t) (describer t)))
                          (set_describer (at_index (players t) (nextDescriberIndex (players t) (describer t))) t'))"
        using r roles_ok_rotated[OF two dist j] by simp
    qed
    then show ?thesis using defineDescriberAndLeader_store[OF Some] by simp
  qed
qed

theorem roles_ok_preserved_witness:
  "list_all roles_ok [team_ABC_roles, team_AB]
   \<and> findOne 9 5 [team_ABC_roles, team_AB] = Inr team_ABC_roles
   \<and> describer team_ABC_roles \<noteq> Some 30 \<and> teamLeader team_ABC_roles \<noteq> Some 30
   \<and> 2 \<le> length (players team_ABC_roles) \<and> distinct (players team_ABC_roles)
   \<and> list_all roles_ok (snd (removePlayer 9 5 30 [team_ABC_roles, team_AB]))
   \<and> list_all roles_ok (snd (defineDescriberAndLeader 9 5 [team_ABC_roles, team_AB]))
   \<and> list_all roles_ok (snd (addPlayerToTeam 30 8 [team_ABC_roles, team_AB]))"
proof -
  have inv: "list_all roles_ok [team_ABC_roles, team_AB]" by (simp add: roles_ok_def)
  have f: "findOne 9 5 [team_ABC_roles, team_AB] = Inr team_ABC_roles"
    by (simp add: findOne_def by_id_room_def)
  show ?thesis
    using inv f
      roles_ok_preserved[OF inv, where rid = 9 and tid = 5 and uid = 30]
      roles_ok_preserved[OF inv, where tid = 8 and uid = 30]
    by simp
qed

theorem roles_ok_counterexample:
  "list_all roles_ok [team_A]
   \<and> defineDescriberAndLeader 9 6 [team_A]
        = (Inr (team_A\<lparr>describer := Some 10, teamLeader := Some 10\<rparr>),
           [team_A\<lparr>describer := Some 10, teamLeader := Some 10\<rparr>])
   \<and> \<not> list_all roles_ok (snd (defineDescriberAndLeader 9 6 [team_A]))
   \<and> list_all roles_ok [team_ABC_roles]
   \<and> removePlayer 9 5 10 [team_ABC_roles]
        = (Inr (team_ABC_roles\<lparr>players := [20, 30]\<rparr>), [team_ABC_roles\<lparr>players := [20, 30]\<rparr>])
   \<and> \<not> list_all roles_ok (snd (removePlayer 9 5 10 [team_ABC_roles]))
   \<and> list_all roles_ok [team_AAB]
   \<and> defineDescriberAndLeader 9 7 [team_AAB]
        = (Inr (team_AAB\<lparr>describer := Some 1, teamLeader := Some 1\<rparr>),
           [team_AAB\<lparr>describer := Some 1, teamLeader := Some 1\<rparr>])
   \<and> \<not> list_all roles_ok (snd (defineDescriberAndLeader 9 7 [team_AAB]))"
  by (simp add: roles_ok_def rotation_defs removePlayer_def pull_player_def Let_def)

section \<open>Bootstrap\<close>

lemmas bootstrap_defs = onModuleInit_def createDefaultRooms_def createDefaultRooms_unchecked_def
  initialRooms_def deleteAllRooms_def roomExist_def rooms_findAll_def rooms_create_def
  addTeamsToRoom_def defaultTeams_def create_def updateTeam_def Let_def

text \<open>
  Claim C2. Run on an empty store, the bootstrap succeeds and leaves exactly two rooms,
  Room1 and Room2, each with turn time 60 and the identifiers of its three teams; the team
  collection holds exactly those six teams, Team1, Team2 and Team3 of each room, each with
  no players and with describer and team leader unset.
\<close>

theorem bootstrap_empty_store:
  "onModuleInit \<lparr>roomModel = [], teamModel = [], nextObjectId = n\<rparr>
     = (Inr (),
        \<lparr>roomModel =
           [\<lparr>room_id = n, room_name = ''Room1'', teams = [n + 1, n + 2, n + 3], turnTime = 60\<rparr>,
            \<lparr>room_id = n + 4, room_name = ''Room2'', teams = [n + 5, n + 6, n + 7], turnTime = 60\<rparr>],
         teamModel =
           [\<lparr>team_id = n + 1, roomId = n, team_name = ''Team1'', players = [], describer = None, teamLeader = None\<rparr>,
            \<lparr>team_id = n + 2, roomId = n, team_name = ''Team2'', players = [], describer = None, teamLeader = None\<rparr>,
            \<lparr>team_id = n + 3, roomId = n, team_name = ''Team3'', players = [], describer = None, teamLeader = None\<rparr>,
            \<lparr>team_id = n + 5, roomId = n + 4, team_name = ''Team1'', players = [], describer = None, teamLeader = None\<rparr>,
            \<lparr>team_id = n + 6, roomId = n + 4, team_name = ''Team2'', players = [], describer = None, teamLeader = None\<rparr>,
            \<lparr>team_id = n + 7, roomId = n + 4, team_name = ''Team3'', players = [], describer = None, teamLeader = None\<rparr>],
         nextObjectId = n + 8\<rparr>)"
  by (simp add: bootstrap_defs)

text \<open>
  Claim C8. Whatever the store held before, the existence check of \<open>createDefaultRooms\<close>
  finds no room of the name at either default room (the rooms were all deleted first, and
  the first default room has a different name from the second), so the bootstrap equals
  the bootstrap without the check, succeeds, and leaves exactly Room1 and Room2.
\<close>

theorem bootstrap_check_redundant:
  "createDefaultRooms d = createDefaultRooms_unchecked d
   \<and> roomExist (initialRooms ! 0) (deleteAllRooms d) = False
   \<and> roomExist (initialRooms ! 1) (snd (createDefaultRooms_loop [initialRooms ! 0] (deleteAllRooms d))) = False
   \<and> fst (createDefaultRooms d) = Inr ()
   \<and> map room_name (roomModel (snd (createDefaultRooms d))) = [''Room1'', ''Room2'']"
  by (simp add: bootstrap_defs)

end
